theory Spec2Isabelle
  imports Main
begin

section \<open>Values of the rule store\<close>

text \<open>
  The port table and the fingerprint rules come from \<^verbatim>\<open>yaml.safe_load\<close>
  (\<^verbatim>\<open>config_loader.py\<close>, \<^verbatim>\<open>load_mappings\<close>), so what sits under a key is whatever
  the file holds: a string, a number, null, a list, a mapping. A mapping is an
  association list read with \<^const>\<open>map_of\<close>; only string keys are kept, since the
  engine looks up string keys only. Floats and dates are left out.
\<close>

datatype pyval =
    PNone
  | PBool bool
  | PInt int
  | PStr string
  | PList "pyval list"
  | PDict "(string \<times> pyval) list"

text \<open>Python's truth value of an object, as used by \<^verbatim>\<open>if x:\<close> and \<^verbatim>\<open>and\<close>.\<close>

fun truthy :: "pyval \<Rightarrow> bool" where
  "truthy PNone = False"
| "truthy (PBool b) = b"
| "truthy (PInt i) = (i \<noteq> 0)"
| "truthy (PStr s) = (s \<noteq> [])"
| "truthy (PList xs) = (xs \<noteq> [])"
| "truthy (PDict d) = (d \<noteq> [])"

text \<open>The exceptions that can leave \<^verbatim>\<open>fingerprint_host\<close>.\<close>

datatype py_error = AttributeError | TypeError | ReError

text \<open>\<^verbatim>\<open>d.get(key, default)\<close> on a dict.\<close>

definition dict_get :: "(string \<times> pyval) list \<Rightarrow> string \<Rightarrow> pyval \<Rightarrow> pyval" where
  "dict_get d k dflt = (case map_of d k of None \<Rightarrow> dflt | Some v \<Rightarrow> v)"

text \<open>
  \<^verbatim>\<open>x.get(key, default)\<close> on any loaded value: only a mapping has the method, every
  other value raises AttributeError.
\<close>

fun obj_get :: "pyval \<Rightarrow> string \<Rightarrow> pyval \<Rightarrow> py_error + pyval" where
  "obj_get (PDict d) k dflt = Inr (dict_get d k dflt)"
| "obj_get _ k dflt = Inl AttributeError"

section \<open>Text\<close>

text \<open>
  A character is a code point below 256. \<^verbatim>\<open>str.lower\<close> maps the letters A to Z
  and the capitals U+00C0 to U+00DE (without U+00D7, the multiplication sign) to
  the code point 32 above, and leaves every other such character alone.
  \<^verbatim>\<open>str.strip\<close> removes the white space at both ends: the codes 9 to 13, 28 to
  32, 133 (U+0085) and 160 (U+00A0). \<^verbatim>\<open>str.upper\<close>, which the engine applies to
  the MAC address only, maps the letters a to z.
\<close>

definition upper_letters :: string where
  "upper_letters = ''ABCDEFGHIJKLMNOPQRSTUVWXYZ''"

definition lower_letters :: string where
  "lower_letters = ''abcdefghijklmnopqrstuvwxyz''"

definition upper_ch :: "char \<Rightarrow> char" where
  "upper_ch c = (case map_of (zip lower_letters upper_letters) c of None \<Rightarrow> c | Some u \<Rightarrow> u)"

definition upper_latin :: string where
  "upper_latin =
     [CHR 0xC0, CHR 0xC1, CHR 0xC2, CHR 0xC3, CHR 0xC4, CHR 0xC5, CHR 0xC6, CHR 0xC7,
      CHR 0xC8, CHR 0xC9, CHR 0xCA, CHR 0xCB, CHR 0xCC, CHR 0xCD, CHR 0xCE, CHR 0xCF,
      CHR 0xD0, CHR 0xD1, CHR 0xD2, CHR 0xD3, CHR 0xD4, CHR 0xD5, CHR 0xD6,
      CHR 0xD8, CHR 0xD9, CHR 0xDA, CHR 0xDB, CHR 0xDC, CHR 0xDD, CHR 0xDE]"

definition lower_latin :: string where
  "lower_latin =
     [CHR 0xE0, CHR 0xE1, CHR 0xE2, CHR 0xE3, CHR 0xE4, CHR 0xE5, CHR 0xE6, CHR 0xE7,
      CHR 0xE8, CHR 0xE9, CHR 0xEA, CHR 0xEB, CHR 0xEC, CHR 0xED, CHR 0xEE, CHR 0xEF,
      CHR 0xF0, CHR 0xF1, CHR 0xF2, CHR 0xF3, CHR 0xF4, CHR 0xF5, CHR 0xF6,
      CHR 0xF8, CHR 0xF9, CHR 0xFA, CHR 0xFB, CHR 0xFC, CHR 0xFD, CHR 0xFE]"

definition lower_ch :: "char \<Rightarrow> char" where
  "lower_ch c =
     (case map_of (zip (upper_letters @ upper_latin) (lower_letters @ lower_latin)) c of
        None \<Rightarrow> c
      | Some l \<Rightarrow> l)"

definition str_upper :: "string \<Rightarrow> string" where
  "str_upper s = map upper_ch s"

definition str_lower :: "string \<Rightarrow> string" where
  "str_lower s = map lower_ch s"

definition py_isspace :: "char \<Rightarrow> bool" where
  "py_isspace c =
     (let n = (of_char c :: nat) in (9 \<le> n \<and> n \<le> 13) \<or> (28 \<le> n \<and> n \<le> 32) \<or> n = 133 \<or> n = 160)"

definition str_strip :: "string \<Rightarrow> string" where
  "str_strip s = rev (dropWhile py_isspace (rev (dropWhile py_isspace s)))"

text \<open>\<^verbatim>\<open>str(p)\<close> of an integer: its decimal digits, with a minus sign below zero.\<close>

definition digit_ch :: "nat \<Rightarrow> char" where
  "digit_ch d = ''0123456789'' ! d"

fun str_nat :: "nat \<Rightarrow> string" where
  "str_nat n = (if n < 10 then [digit_ch n] else str_nat (n div 10) @ [digit_ch (n mod 10)])"

declare str_nat.simps [simp del]

definition str_int :: "int \<Rightarrow> string" where
  "str_int i = (if i < 0 then CHR ''-'' # str_nat (nat (- i)) else str_nat (nat i))"

section \<open>The regular-expression library\<close>

text \<open>
  \<^verbatim>\<open>re.search\<close> is library code. It is a parameter of the embedding: a library
  says which pattern strings compile and, for those, whether the pattern is
  found somewhere in a text. The engine passes no flags.
\<close>

record regex_lib =
  re_valid :: "string \<Rightarrow> bool"
  re_found :: "string \<Rightarrow> string \<Rightarrow> bool"

text \<open>
  \<^verbatim>\<open>re.search(pat, text)\<close> with \<^verbatim>\<open>pat\<close> a loaded value: a pattern that is not a
  string raises TypeError, a string that does not compile raises \<^verbatim>\<open>re.error\<close>.
\<close>

fun re_search :: "regex_lib \<Rightarrow> pyval \<Rightarrow> string \<Rightarrow> py_error + bool" where
  "re_search re (PStr pat) text = (if re_valid re pat then Inr (re_found re pat text) else Inl ReError)"
| "re_search re _ text = Inl TypeError"

text \<open>
  The library on patterns without metacharacters, where searching is looking
  for the pattern as a substring. This instance rejects every pattern holding
  a metacharacter, as the library rejects \<^verbatim>\<open>(\<close>; the examples below use letters
  and \<^verbatim>\<open>(\<close> only.
\<close>

fun starts_with :: "string \<Rightarrow> string \<Rightarrow> bool" where
  "starts_with [] t = True"
| "starts_with (p # ps) [] = False"
| "starts_with (p # ps) (c # cs) = (p = c \<and> starts_with ps cs)"

fun contains :: "string \<Rightarrow> string \<Rightarrow> bool" where
  "contains p [] = (p = [])"
| "contains p (c # cs) = (starts_with p (c # cs) \<or> contains p cs)"

definition re_meta :: "char \<Rightarrow> bool" where
  "re_meta c = (c \<in> set (''.^$*+?{}[]|()'' @ [CHR 0x5C]))"

definition plain_re :: regex_lib where
  "plain_re = \<lparr>re_valid = (\<lambda>pat. \<not> list_ex re_meta pat), re_found = contains\<rparr>"

section \<open>The network\<close>

text \<open>
  What a host answers on a port: the subject of its certificate (a list of
  relative distinguished names, each a list of name-value pairs), or nothing
  when the connection, the handshake or the validation raised; and the body of
  the page, or nothing when the request raised.
\<close>

record net_reply =
  peer_subject :: "(string \<times> string) list list option"
  page_body :: "string option"

type_synonym network = "string \<Rightarrow> int \<Rightarrow> net_reply"

text \<open>
  The loop over the subject in \<^verbatim>\<open>_fetch_cert_and_page\<close>: the first item whose
  first pair is named commonName gives the CN, lower-cased. An empty item makes
  \<^verbatim>\<open>item[0]\<close> raise IndexError, which the surrounding \<^verbatim>\<open>try\<close> catches with the CN
  still empty.
\<close>

fun find_cn :: "(string \<times> string) list list \<Rightarrow> string" where
  "find_cn [] = []"
| "find_cn ([] # rest) = []"
| "find_cn (((k, v) # _) # rest) = (if k = ''commonName'' then str_lower v else find_cn rest)"

definition fetch_cert_and_page :: "network \<Rightarrow> string \<Rightarrow> int \<Rightarrow> string \<times> string" where
  "fetch_cert_and_page net ip port =
     (let cert_cn = (case peer_subject (net ip port) of None \<Rightarrow> [] | Some subject \<Rightarrow> find_cn subject);
          page_text = (case page_body (net ip port) of None \<Rightarrow> [] | Some body \<Rightarrow> str_lower body)
      in (cert_cn, page_text))"

section \<open>The fingerprint engine\<close>

abbreviation DEFAULT_VENDOR :: pyval where "DEFAULT_VENDOR \<equiv> PStr ''Unknown''"
abbreviation DEFAULT_ROLE_SLUG :: pyval where "DEFAULT_ROLE_SLUG \<equiv> PStr ''unknown''"
abbreviation DEFAULT_DEVICE_TYPE :: pyval where "DEFAULT_DEVICE_TYPE \<equiv> PStr ''Unknown''"

text \<open>
  The engine object. \<^verbatim>\<open>oui_dict\<close> is built by \<^verbatim>\<open>load_oui\<close> from text lines, so it
  maps strings to strings; the other two fields are the loaded YAML.
\<close>

record engine =
  oui_dict :: "(string \<times> string) list"
  port_roles :: "(string \<times> pyval) list"
  fingerprint_patterns :: "pyval list"

text \<open>The scanner's record of one host (\<^verbatim>\<open>nmap_scanner.py\<close>).\<close>

record host_data =
  ip_addr :: string
  mac_addr :: "string option"
  open_ports :: "int list"
  os_guess :: "string option"

record classification =
  vendor :: pyval
  role_slug :: pyval
  device_type :: pyval

text \<open>Step 1, the OUI lookup: the value of \<^verbatim>\<open>vendor\<close> after it.\<close>

definition oui_lookup :: "(string \<times> string) list \<Rightarrow> string option \<Rightarrow> pyval" where
  "oui_lookup oui mac =
     (case mac of
        None \<Rightarrow> DEFAULT_VENDOR
      | Some m \<Rightarrow>
          if m = [] then DEFAULT_VENDOR
          else (case map_of oui (str_upper (take 8 m)) of
                  None \<Rightarrow> DEFAULT_VENDOR
                | Some maybe_vendor \<Rightarrow> if maybe_vendor = [] then DEFAULT_VENDOR else PStr maybe_vendor))"

text \<open>
  Step 2, the loop over the open ports: the values of \<^verbatim>\<open>role_slug\<close> and
  \<^verbatim>\<open>device_type\<close> after it, from their values before it. The loop ends at the
  first port whose string is a key.
\<close>

fun port_lookup :: "(string \<times> pyval) list \<Rightarrow> int list \<Rightarrow> pyval \<Rightarrow> pyval \<Rightarrow> py_error + pyval \<times> pyval" where
  "port_lookup pr [] role dt = Inr (role, dt)"
| "port_lookup pr (p # ps) role dt =
     (case map_of pr (str_int p) of
        None \<Rightarrow> port_lookup pr ps role dt
      | Some entry \<Rightarrow>
          (case obj_get entry ''role'' role of
             Inl e \<Rightarrow> Inl e
           | Inr role' \<Rightarrow>
               (case obj_get entry ''device_type'' dt of
                  Inl e \<Rightarrow> Inl e
                | Inr dt' \<Rightarrow> Inr (role', dt'))))"

text \<open>The loop of \<^verbatim>\<open>_regex_fingerprint\<close> over the rules, on the combined text.\<close>

fun match_rules :: "regex_lib \<Rightarrow> pyval list \<Rightarrow> string \<Rightarrow> py_error + pyval \<times> pyval" where
  "match_rules re [] combined = Inr (PNone, PNone)"
| "match_rules re (entry # rest) combined =
     (case obj_get entry ''regex'' PNone of
        Inl e \<Rightarrow> Inl e
      | Inr pat \<Rightarrow>
          (case obj_get entry ''vendor'' PNone of
             Inl e \<Rightarrow> Inl e
           | Inr vend \<Rightarrow>
               (case obj_get entry ''device_type'' PNone of
                  Inl e \<Rightarrow> Inl e
                | Inr dt \<Rightarrow>
                    if truthy pat \<and> truthy vend \<and> truthy dt then
                      (case re_search re pat combined of
                         Inl e \<Rightarrow> Inl e
                       | Inr found \<Rightarrow> if found then Inr (vend, dt) else match_rules re rest combined)
                    else match_rules re rest combined)))"

definition regex_fingerprint :: "regex_lib \<Rightarrow> pyval list \<Rightarrow> string \<Rightarrow> string \<Rightarrow> py_error + pyval \<times> pyval" where
  "regex_fingerprint re patterns cert_cn page_text =
     (let combined = cert_cn @ '' '' @ page_text in
      if str_strip combined = [] then Inr (PNone, PNone)
      else match_rules re patterns combined)"

text \<open>
  Step 4 and the return: the lower-cased OS guess is computed and dropped.
\<close>

definition finish :: "pyval \<Rightarrow> pyval \<Rightarrow> pyval \<Rightarrow> string option \<Rightarrow> classification" where
  "finish v role dt os =
     (let lower_os = (if v = DEFAULT_VENDOR \<and> os \<noteq> None \<and> os \<noteq> Some [] then map_option str_lower os else None)
      in \<lparr>vendor = v, role_slug = role, device_type = dt\<rparr>)"

text \<open>
  \<^verbatim>\<open>fingerprint_host\<close>. The second component is the list of requests made on
  the network so far, to which a fetch adds the address and the port.
\<close>

definition fingerprint_host ::
  "regex_lib \<Rightarrow> network \<Rightarrow> engine \<Rightarrow> host_data \<Rightarrow> (string \<times> int) list
     \<Rightarrow> (py_error + classification) \<times> (string \<times> int) list" where
  "fingerprint_host re net self h log =
     (let v = oui_lookup (oui_dict self) (mac_addr h) in
      case port_lookup (port_roles self) (open_ports h) DEFAULT_ROLE_SLUG DEFAULT_DEVICE_TYPE of
        Inl e \<Rightarrow> (Inl e, log)
      | Inr (role, dt) \<Rightarrow>
          if 443 \<in> set (open_ports h) \<and> (v = DEFAULT_VENDOR \<or> dt = DEFAULT_DEVICE_TYPE) then
            (let (cn, page_txt) = fetch_cert_and_page net (ip_addr h) 443;
                 log' = log @ [(ip_addr h, 443)]
             in case regex_fingerprint re (fingerprint_patterns self) cn page_txt of
                  Inl e \<Rightarrow> (Inl e, log')
                | Inr (v2, dt2) \<Rightarrow>
                    (Inr (finish (if truthy v2 \<and> v = DEFAULT_VENDOR then v2 else v)
                                 role
                                 (if truthy dt2 \<and> dt = DEFAULT_DEVICE_TYPE then dt2 else dt)
                                 (os_guess h)),
                     log'))
          else (Inr (finish v role dt (os_guess h)), log))"

section \<open>Well-formed rule stores\<close>

text \<open>
  The conditions under which the engine's reads of the rule store do not raise,
  and the rule that the loop of \<^verbatim>\<open>_regex_fingerprint\<close> stops at.
\<close>

fun is_dict :: "pyval \<Rightarrow> bool" where
  "is_dict (PDict d) = True"
| "is_dict _ = False"

text \<open>\<^verbatim>\<open>entry.get(k)\<close> of a rule that is a mapping.\<close>

fun rule_field :: "pyval \<Rightarrow> string \<Rightarrow> pyval" where
  "rule_field (PDict d) k = dict_get d k PNone"
| "rule_field _ k = PNone"

text \<open>The guard \<^verbatim>\<open>if pat and vend and dt\<close>.\<close>

definition complete_rule :: "pyval \<Rightarrow> bool" where
  "complete_rule e =
     (is_dict e \<and> truthy (rule_field e ''regex'') \<and> truthy (rule_field e ''vendor'')
        \<and> truthy (rule_field e ''device_type''))"

text \<open>A rule passes the guard and \<^verbatim>\<open>re.search\<close> finds its pattern in the text.\<close>

definition rule_hits :: "regex_lib \<Rightarrow> string \<Rightarrow> pyval \<Rightarrow> bool" where
  "rule_hits re text e = (complete_rule e \<and> re_search re (rule_field e ''regex'') text = Inr True)"

fun compiles :: "regex_lib \<Rightarrow> pyval \<Rightarrow> bool" where
  "compiles re (PStr s) = re_valid re s"
| "compiles re _ = False"

text \<open>
  A rule that is a mapping and whose pattern, if the rule passes the guard, is
  a string that compiles.
\<close>

definition wf_rule :: "regex_lib \<Rightarrow> pyval \<Rightarrow> bool" where
  "wf_rule re e = (is_dict e \<and> (complete_rule e \<longrightarrow> compiles re (rule_field e ''regex'')))"

text \<open>Every port entry is a mapping and every rule is well formed.\<close>

definition wf_engine :: "regex_lib \<Rightarrow> engine \<Rightarrow> bool" where
  "wf_engine re self =
     (list_all (\<lambda>kv. is_dict (snd kv)) (port_roles self) \<and> list_all (wf_rule re) (fingerprint_patterns self))"

section \<open>Example rule stores, hosts and networks\<close>

definition rule_mikrotik :: pyval where
  "rule_mikrotik =
     PDict [(''regex'', PStr ''mikrotik''), (''vendor'', PStr ''MikroTik''), (''device_type'', PStr ''RouterOS'')]"

definition entry_server :: pyval where
  "entry_server = PDict [(''role'', PStr ''server''), (''device_type'', PStr ''Linux Host'')]"

definition acme_engine :: engine where
  "acme_engine =
     \<lparr>oui_dict = [(''AC:DE:48'', ''Acme'')],
      port_roles = [(''22'', entry_server)],
      fingerprint_patterns = [rule_mikrotik]\<rparr>"

definition acme_host :: host_data where
  "acme_host =
     \<lparr>ip_addr = ''10.0.0.5'', mac_addr = Some ''ac:de:48:00:11:22'', open_ports = [22], os_guess = None\<rparr>"

definition https_host :: host_data where
  "https_host = \<lparr>ip_addr = ''10.0.0.9'', mac_addr = None, open_ports = [443], os_guess = None\<rparr>"

text \<open>A network on which every host presents the CN \<^verbatim>\<open>MikroTik.local\<close> and serves no page.\<close>

definition mikrotik_net :: network where
  "mikrotik_net = (\<lambda>ip port. \<lparr>peer_subject = Some [[(''commonName'', ''MikroTik.local'')]], page_body = None\<rparr>)"

text \<open>A network on which nothing answers.\<close>

definition silent_net :: network where
  "silent_net = (\<lambda>ip port. \<lparr>peer_subject = None, page_body = None\<rparr>)"

text \<open>OUI tables that map the prefix to the empty string and to \<^verbatim>\<open>Unknown\<close>.\<close>

definition empty_vendor_engine :: engine where
  "empty_vendor_engine = \<lparr>oui_dict = [(''AC:DE:48'', [])], port_roles = [], fingerprint_patterns = []\<rparr>"

definition unknown_vendor_engine :: engine where
  "unknown_vendor_engine =
     \<lparr>oui_dict = [(''AC:DE:48'', ''Unknown'')], port_roles = [], fingerprint_patterns = [rule_mikrotik]\<rparr>"

definition acme_https_host :: host_data where
  "acme_https_host =
     \<lparr>ip_addr = ''10.0.0.5'', mac_addr = Some ''ac:de:48:00:11:22'', open_ports = [443], os_guess = None\<rparr>"

text \<open>More port entries, rules, rule stores and hosts.\<close>

definition entry_web :: pyval where
  "entry_web = PDict [(''role'', PStr ''web''), (''device_type'', PStr ''Web Server'')]"

definition entry_web_unknown :: pyval where
  "entry_web_unknown = PDict [(''role'', PStr ''web''), (''device_type'', PStr ''Unknown'')]"


definition entry_empty :: pyval where
  "entry_empty = PDict [(''role'', PStr []), (''device_type'', PStr [])]"

definition web_unknown_engine :: engine where
  "web_unknown_engine =
     \<lparr>oui_dict = [], port_roles = [(''443'', entry_web_unknown)], fingerprint_patterns = [rule_mikrotik]\<rparr>"

definition two_port_engine :: engine where
  "two_port_engine =
     \<lparr>oui_dict = [], port_roles = [(''22'', entry_server), (''80'', entry_web)], fingerprint_patterns = []\<rparr>"


definition empty_entry_engine :: engine where
  "empty_entry_engine =
     \<lparr>oui_dict = [], port_roles = [(''22'', entry_empty)], fingerprint_patterns = []\<rparr>"

definition multi_port_host :: host_data where
  "multi_port_host =
     \<lparr>ip_addr = ''10.0.0.7'', mac_addr = None, open_ports = [25, 22, 80], os_guess = None\<rparr>"

definition bare_host :: host_data where
  "bare_host = \<lparr>ip_addr = ''10.0.0.8'', mac_addr = None, open_ports = [25], os_guess = None\<rparr>"

definition rule_mikro :: pyval where
  "rule_mikro =
     PDict [(''regex'', PStr ''mikro''), (''vendor'', PStr ''MikroTik''), (''device_type'', PStr ''RB'')]"

definition rule_bad_regex :: pyval where
  "rule_bad_regex =
     PDict [(''regex'', PStr ''(''), (''vendor'', PStr ''MikroTik''), (''device_type'', PStr ''RouterOS'')]"

definition bad_regex_engine :: engine where
  "bad_regex_engine = \<lparr>oui_dict = [], port_roles = [], fingerprint_patterns = [rule_bad_regex]\<rparr>"

definition string_rule_engine :: engine where
  "string_rule_engine = \<lparr>oui_dict = [], port_roles = [], fingerprint_patterns = [PStr ''mikrotik'']\<rparr>"

text \<open>The network of \<^const>\<open>mikrotik_net\<close> with the CN sent in lower case.\<close>

definition mikrotik_lower_net :: network where
  "mikrotik_lower_net = (\<lambda>ip port. \<lparr>peer_subject = Some [[(''commonName'', ''mikrotik.local'')]], page_body = None\<rparr>)"

section \<open>Letter case of the evidence\<close>

text \<open>
  A reply with the values of its certificate subject and its page body in lower
  case: two replies with the same image differ in letter case only.
\<close>

definition lower_reply :: "net_reply \<Rightarrow> net_reply" where
  "lower_reply r =
     \<lparr>peer_subject = map_option (map (map (\<lambda>kv. (fst kv, str_lower (snd kv))))) (peer_subject r),
      page_body = map_option str_lower (page_body r)\<rparr>"

text \<open>The text holds a character that lower-casing changes.\<close>

definition has_upper :: "string \<Rightarrow> bool" where
  "has_upper s = list_ex (\<lambda>c. lower_ch c \<noteq> c) s"

text \<open>What \<^verbatim>\<open>_fetch_cert_and_page\<close> makes of one reply.\<close>

definition fetched :: "net_reply \<Rightarrow> string \<times> string" where
  "fetched r = (case peer_subject r of None \<Rightarrow> [] | Some subject \<Rightarrow> find_cn subject,
                case page_body r of None \<Rightarrow> [] | Some body \<Rightarrow> str_lower body)"

section \<open>The port loop and the rule loop\<close>

lemma port_lookup_skip:
  "\<forall>q\<in>set pre. map_of pr (str_int q) = None \<Longrightarrow>
   port_lookup pr (pre @ rest) role dt = port_lookup pr rest role dt"
  by (induction pre) auto

lemma port_lookup_hit:
  "map_of pr (str_int p) = Some (PDict d) \<Longrightarrow>
   port_lookup pr (p # post) role dt = Inr (dict_get d ''role'' role, dict_get d ''device_type'' dt)"
  by simp

lemma port_lookup_none:
  "\<forall>q\<in>set ps. map_of pr (str_int q) = None \<Longrightarrow> port_lookup pr ps role dt = Inr (role, dt)"
  using port_lookup_skip [of ps pr "[]" role dt] by simp

lemma port_lookup_total:
  "list_all (\<lambda>kv. is_dict (snd kv)) pr \<Longrightarrow> \<exists>role' dt'. port_lookup pr ps role dt = Inr (role', dt')"
proof (induction ps)
  case Nil
  then show ?case by simp
next
  case (Cons p ps)
  show ?case
  proof (cases "map_of pr (str_int p)")
    case None
    with Cons show ?thesis by simp
  next
    case (Some entry)
    then have "(str_int p, entry) \<in> set pr" by (rule map_of_SomeD)
    with Cons.prems have "is_dict entry" by (auto simp: list_all_iff)
    then obtain d where "entry = PDict d" by (cases entry) auto
    with Some show ?thesis by simp
  qed
qed

lemma match_rules_find:
  "list_all (wf_rule re) rules \<Longrightarrow>
   match_rules re rules text =
     Inr (case find (rule_hits re text) rules of
            None \<Rightarrow> (PNone, PNone)
          | Some e \<Rightarrow> (rule_field e ''vendor'', rule_field e ''device_type''))"
proof (induction rules)
  case Nil
  then show ?case by simp
next
  case (Cons e rules)
  then have wf: "wf_rule re e" and rest: "list_all (wf_rule re) rules" by simp_all
  from wf obtain d where e: "e = PDict d" by (cases e) (auto simp: wf_rule_def)
  show ?case
  proof (cases "complete_rule e")
    case False
    with e Cons.IH [OF rest] show ?thesis
      by (auto simp: complete_rule_def rule_hits_def)
  next
    case True
    with wf have "compiles re (rule_field e ''regex'')" by (simp add: wf_rule_def)
    then obtain s where s: "rule_field e ''regex'' = PStr s" and v: "re_valid re s"
      by (cases "rule_field e ''regex''") auto
    with True e Cons.IH [OF rest] show ?thesis
      by (auto simp: complete_rule_def rule_hits_def)
  qed
qed

lemma regex_fingerprint_total:
  "list_all (wf_rule re) rules \<Longrightarrow> \<exists>v2 dt2. regex_fingerprint re rules cn page = Inr (v2, dt2)"
  by (simp add: regex_fingerprint_def Let_def match_rules_find split: option.splits)

section \<open>The shape of a returned classification\<close>

lemma fingerprint_host_result:
  "fst (fingerprint_host re net self h log) = Inr c \<Longrightarrow>
   \<exists>role dt. port_lookup (port_roles self) (open_ports h) DEFAULT_ROLE_SLUG DEFAULT_DEVICE_TYPE = Inr (role, dt)
     \<and> role_slug c = role
     \<and> (vendor c = oui_lookup (oui_dict self) (mac_addr h)
          \<or> (oui_lookup (oui_dict self) (mac_addr h) = DEFAULT_VENDOR \<and> truthy (vendor c)
                \<and> 443 \<in> set (open_ports h)))
     \<and> (device_type c = dt
          \<or> (dt = DEFAULT_DEVICE_TYPE \<and> truthy (device_type c) \<and> 443 \<in> set (open_ports h)))"
  by (auto simp: fingerprint_host_def finish_def Let_def split: sum.splits prod.splits if_splits)

lemma fingerprint_host_total:
  assumes "wf_engine re self"
  shows "\<exists>c. fst (fingerprint_host re net self h log) = Inr c"
proof -
  from assms obtain role dt where
    p: "port_lookup (port_roles self) (open_ports h) DEFAULT_ROLE_SLUG DEFAULT_DEVICE_TYPE = Inr (role, dt)"
    using port_lookup_total [of "port_roles self" "open_ports h" DEFAULT_ROLE_SLUG DEFAULT_DEVICE_TYPE]
    by (auto simp: wf_engine_def)
  obtain cn page where f: "fetch_cert_and_page net (ip_addr h) 443 = (cn, page)"
    by (cases "fetch_cert_and_page net (ip_addr h) 443")
  from assms obtain v2 dt2 where
    r: "regex_fingerprint re (fingerprint_patterns self) cn page = Inr (v2, dt2)"
    using regex_fingerprint_total [of re "fingerprint_patterns self" cn page]
    by (auto simp: wf_engine_def)
  from p f r show ?thesis
    by (simp add: fingerprint_host_def Let_def)
qed

lemma fingerprint_host_fetch_cong:
  "fetch_cert_and_page net1 (ip_addr h) 443 = fetch_cert_and_page net2 (ip_addr h) 443 \<Longrightarrow>
   fst (fingerprint_host re net1 self h log1) = fst (fingerprint_host re net2 self h log2)"
  by (auto simp: fingerprint_host_def Let_def split: sum.splits prod.splits)

lemma oui_lookup_found:
  "mac = Some m \<Longrightarrow> m \<noteq> [] \<Longrightarrow> map_of oui (str_upper (take 8 m)) = Some v \<Longrightarrow> v \<noteq> [] \<Longrightarrow>
   oui_lookup oui mac = PStr v"
  by (simp add: oui_lookup_def)

lemma oui_lookup_truthy: "truthy (oui_lookup oui mac)"
  by (simp add: oui_lookup_def split: option.splits)

section \<open>Vendor from the OUI table\<close>

text \<open>
  Claim C1, as stated, fails on two inputs. A prefix mapped to the empty string
  leaves the vendor at \<^verbatim>\<open>Unknown\<close> (the guard \<^verbatim>\<open>if maybe_vendor\<close>); a prefix
  mapped to the string \<^verbatim>\<open>Unknown\<close> is replaced by the vendor of a matching
  fingerprint rule when port 443 is open.
\<close>

theorem oui_vendor_counterexample:
  "map_of (oui_dict empty_vendor_engine) (str_upper (take 8 ''ac:de:48:00:11:22'')) = Some []
   \<and> fst (fingerprint_host plain_re silent_net empty_vendor_engine acme_host [])
       = Inr \<lparr>vendor = PStr ''Unknown'', role_slug = PStr ''unknown'', device_type = PStr ''Unknown''\<rparr>
   \<and> map_of (oui_dict unknown_vendor_engine) (str_upper (take 8 ''ac:de:48:00:11:22'')) = Some ''Unknown''
   \<and> fst (fingerprint_host plain_re mikrotik_net unknown_vendor_engine acme_https_host [])
       = Inr \<lparr>vendor = PStr ''MikroTik'', role_slug = PStr ''unknown'', device_type = PStr ''RouterOS''\<rparr>"
  by code_simp

text \<open>
  Claim C1, amended: when the MAC address is present and its first eight
  characters, upper-cased, are a key of the OUI table mapped to a vendor that is
  neither empty nor \<^verbatim>\<open>Unknown\<close>, every classification returned has that vendor,
  whatever the ports, the OS guess, the network's answers and the rules; and on
  a well-formed rule store a classification is returned.
\<close>

theorem oui_vendor_kept:
  assumes "mac_addr h = Some m" and "m \<noteq> []"
    and "map_of (oui_dict self) (str_upper (take 8 m)) = Some v"
    and "v \<noteq> []" and "v \<noteq> ''Unknown''"
  shows "(\<forall>c. fst (fingerprint_host re net self h log) = Inr c \<longrightarrow> vendor c = PStr v)
       \<and> (wf_engine re self \<longrightarrow> (\<exists>c. fst (fingerprint_host re net self h log) = Inr c \<and> vendor c = PStr v))"
proof -
  from assms have o: "oui_lookup (oui_dict self) (mac_addr h) = PStr v"
    by (simp add: oui_lookup_found)
  have part: "vendor c = PStr v" if "fst (fingerprint_host re net self h log) = Inr c" for c
    using fingerprint_host_result [OF that] o assms(5) by auto
  with fingerprint_host_total [of re self net h log] show ?thesis by blast
qed

theorem oui_vendor_kept_witness:
  "mac_addr acme_host = Some ''ac:de:48:00:11:22''
   \<and> map_of (oui_dict acme_engine) (str_upper (take 8 ''ac:de:48:00:11:22'')) = Some ''Acme''
   \<and> wf_engine plain_re acme_engine
   \<and> (\<exists>c. fst (fingerprint_host plain_re mikrotik_net acme_engine acme_host []) = Inr c
          \<and> vendor c = PStr ''Acme'')"
proof -
  have h1: "mac_addr acme_host = Some ''ac:de:48:00:11:22''" by code_simp
  have h2: "''ac:de:48:00:11:22'' \<noteq> []" by simp
  have h3: "map_of (oui_dict acme_engine) (str_upper (take 8 ''ac:de:48:00:11:22'')) = Some ''Acme''"
    by code_simp
  have h4: "''Acme'' \<noteq> []" and h5: "''Acme'' \<noteq> ''Unknown''" by simp_all
  have w: "wf_engine plain_re acme_engine" by code_simp
  from oui_vendor_kept [OF h1 h2 h3 h4 h5, of plain_re mikrotik_net "[]"] w h1 h3
  show ?thesis by blast
qed

section \<open>When the evidence is fetched\<close>

text \<open>
  Claim C3: the call adds a request to the network's log exactly when the port
  loop has ended without raising, 443 is among the open ports, and the vendor
  after the OUI step or the device type after the port loop is still
  \<^verbatim>\<open>Unknown\<close>; the request is then the one for the host's address on port
  443, made once. In every other case the log is unchanged: no fetch when 443
  is not open, none when both values are resolved.
\<close>

theorem fetch_condition:
  "snd (fingerprint_host re net self h log) =
     (if (\<exists>role dt. port_lookup (port_roles self) (open_ports h) DEFAULT_ROLE_SLUG DEFAULT_DEVICE_TYPE = Inr (role, dt)
            \<and> 443 \<in> set (open_ports h)
            \<and> (oui_lookup (oui_dict self) (mac_addr h) = DEFAULT_VENDOR \<or> dt = DEFAULT_DEVICE_TYPE))
      then log @ [(ip_addr h, 443)] else log)"
  by (auto simp: fingerprint_host_def Let_def split: sum.splits prod.splits)

theorem fetch_condition_witness:
  "snd (fingerprint_host plain_re mikrotik_net acme_engine https_host []) = [(''10.0.0.9'', 443)]
   \<and> snd (fingerprint_host plain_re mikrotik_net acme_engine acme_host []) = []"
proof -
  have a: "port_lookup (port_roles acme_engine) (open_ports https_host) DEFAULT_ROLE_SLUG DEFAULT_DEVICE_TYPE
             = Inr (DEFAULT_ROLE_SLUG, DEFAULT_DEVICE_TYPE)"
    by code_simp
  have b: "443 \<in> set (open_ports https_host)" by code_simp
  have c: "ip_addr https_host = ''10.0.0.9''" by code_simp
  have d: "443 \<notin> set (open_ports acme_host)" by code_simp
  from a b c have "snd (fingerprint_host plain_re mikrotik_net acme_engine https_host []) = [(''10.0.0.9'', 443)]"
    using fetch_condition [of plain_re mikrotik_net acme_engine https_host "[]"] by auto
  moreover from d have "snd (fingerprint_host plain_re mikrotik_net acme_engine acme_host []) = []"
    using fetch_condition [of plain_re mikrotik_net acme_engine acme_host "[]"] by auto
  ultimately show ?thesis by simp
qed

section \<open>Determinism\<close>

text \<open>
  Claim C8: the result of a call depends on the network only through the pair
  that the fetch returns for the host, and not on the calls made before. Two
  calls on the same observation and rule store, against networks that give the
  same certificate CN and page text for the host, return the same result.
\<close>

theorem fingerprint_host_deterministic:
  assumes "fetch_cert_and_page net1 (ip_addr h) 443 = fetch_cert_and_page net2 (ip_addr h) 443"
  shows "fst (fingerprint_host re net1 self h log1) = fst (fingerprint_host re net2 self h log2)"
  using assms by (rule fingerprint_host_fetch_cong)

theorem fingerprint_host_deterministic_witness:
  "fetch_cert_and_page mikrotik_net (ip_addr https_host) 443
     = fetch_cert_and_page mikrotik_lower_net (ip_addr https_host) 443
   \<and> fst (fingerprint_host plain_re mikrotik_net acme_engine https_host [])
       = fst (fingerprint_host plain_re mikrotik_lower_net acme_engine https_host
               (snd (fingerprint_host plain_re mikrotik_net acme_engine https_host [])))"
proof -
  have h: "fetch_cert_and_page mikrotik_net (ip_addr https_host) 443
             = fetch_cert_and_page mikrotik_lower_net (ip_addr https_host) 443"
    by code_simp
  from fingerprint_host_deterministic [OF h] h show ?thesis by blast
qed

section \<open>The OS guess\<close>

text \<open>
  Claim C9: the OS guess has no effect. Two observations that differ in
  \<^verbatim>\<open>os_guess\<close> only give the same result and the same requests; the vendor is
  never taken from the OS guess.
\<close>

theorem os_guess_unused:
  "fingerprint_host re net self (h\<lparr>os_guess := g\<rparr>) log = fingerprint_host re net self h log"
  by (auto simp: fingerprint_host_def finish_def Let_def split: sum.splits prod.splits)

theorem os_guess_unused_witness:
  "fingerprint_host plain_re mikrotik_net acme_engine (https_host\<lparr>os_guess := Some ''Linux 5.4''\<rparr>) []
     = fingerprint_host plain_re mikrotik_net acme_engine https_host []"
  by (rule os_guess_unused)

section \<open>More on the port loop\<close>

lemma port_lookup_first:
  assumes "ports = pre @ p # post"
    and "\<forall>q\<in>set pre. map_of pr (str_int q) = None"
    and "map_of pr (str_int p) = Some (PDict d)"
  shows "port_lookup pr ports role dt = Inr (dict_get d ''role'' role, dict_get d ''device_type'' dt)"
  using assms by (simp add: port_lookup_skip)

lemma port_lookup_origin:
  "port_lookup pr ps role dt = Inr (role', dt') \<Longrightarrow>
     (role' = role \<or> (\<exists>p\<in>set ps. \<exists>d. map_of pr (str_int p) = Some (PDict d) \<and> map_of d ''role'' = Some role'))
   \<and> (dt' = dt \<or> (\<exists>p\<in>set ps. \<exists>d. map_of pr (str_int p) = Some (PDict d) \<and> map_of d ''device_type'' = Some dt'))"
proof (induction ps)
  case Nil
  then show ?case by simp
next
  case (Cons p ps)
  show ?case
  proof (cases "map_of pr (str_int p)")
    case None
    with Cons show ?thesis by auto
  next
    case (Some entry)
    with Cons.prems obtain d where e: "entry = PDict d"
      by (cases entry) auto
    with Some Cons.prems show ?thesis
      by (auto simp: dict_get_def split: option.splits)
  qed
qed

section \<open>Lower-cased text\<close>

lemma lower_ch_idem: "lower_ch (lower_ch c) = lower_ch c"
  by (simp add: lower_ch_def upper_letters_def lower_letters_def upper_latin_def lower_latin_def)

text \<open>The characters beyond ASCII: capitals are folded, the white space is stripped.\<close>

lemma str_lower_latin:
  "str_lower [CHR 0xC0, CHR ''A'', CHR 0xD7, CHR 0xDE, CHR 0xDF, CHR 0xFF]
     = [CHR 0xE0, CHR ''a'', CHR 0xD7, CHR 0xFE, CHR 0xDF, CHR 0xFF]"
  by code_simp

lemma str_strip_latin:
  "str_strip ([] @ '' '' @ [CHR 0xA0]) = [] \<and> str_strip ([CHR 0x85] @ '' '' @ []) = []"
  by code_simp

lemma lower_reply_latin:
  "lower_reply \<lparr>peer_subject = Some [[(''commonName'', [CHR 0xC0])]], page_body = Some [CHR 0xDE]\<rparr>
     = lower_reply \<lparr>peer_subject = Some [[(''commonName'', [CHR 0xE0])]], page_body = Some [CHR 0xFE]\<rparr>"
  by code_simp

text \<open>On a blank combined text the rules are not consulted.\<close>

lemma regex_fingerprint_blank:
  "str_strip (cn @ '' '' @ page) = [] \<Longrightarrow> regex_fingerprint re rules cn page = Inr (PNone, PNone)"
  by (simp add: regex_fingerprint_def Let_def)

lemma regex_fingerprint_blank_latin:
  "regex_fingerprint plain_re [rule_mikrotik] [] [CHR 0xA0] = Inr (PNone, PNone)"
  by code_simp

lemma str_lower_idem: "str_lower (str_lower s) = str_lower s"
  by (simp add: str_lower_def lower_ch_idem)

lemma str_lower_no_upper: "\<not> has_upper (str_lower s)"
  by (simp add: has_upper_def str_lower_def list_ex_iff lower_ch_idem)

lemma has_upper_space: "\<not> has_upper '' ''"
  by code_simp

lemma has_upper_nil: "\<not> has_upper []"
  by (simp add: has_upper_def)

lemma has_upper_append: "has_upper (a @ b) = (has_upper a \<or> has_upper b)"
  by (auto simp: has_upper_def list_ex_iff)

lemma find_cn_lower:
  "find_cn (map (map (\<lambda>kv. (fst kv, str_lower (snd kv)))) subject) = find_cn subject"
  by (induction subject rule: find_cn.induct) (simp_all add: str_lower_idem)

lemma find_cn_no_upper: "\<not> has_upper (find_cn subject)"
  by (induction subject rule: find_cn.induct) (simp_all add: str_lower_no_upper has_upper_nil)

lemma fetch_fetched: "fetch_cert_and_page net ip port = fetched (net ip port)"
  by (simp add: fetch_cert_and_page_def fetched_def Let_def)

lemma fetched_lower: "fetched (lower_reply r) = fetched r"
  by (simp add: fetched_def lower_reply_def find_cn_lower str_lower_idem split: option.splits)

lemma fetch_lower_cong:
  assumes "lower_reply (net1 ip port) = lower_reply (net2 ip port)"
  shows "fetch_cert_and_page net1 ip port = fetch_cert_and_page net2 ip port"
proof -
  have "fetched (net1 ip port) = fetched (lower_reply (net1 ip port))" by (simp add: fetched_lower)
  also have "\<dots> = fetched (net2 ip port)" by (simp add: assms fetched_lower)
  finally show ?thesis by (simp add: fetch_fetched)
qed

lemma fetch_no_upper:
  "\<not> has_upper (fst (fetch_cert_and_page net ip port)) \<and> \<not> has_upper (snd (fetch_cert_and_page net ip port))"
  by (simp add: fetch_cert_and_page_def Let_def find_cn_no_upper str_lower_no_upper has_upper_nil
      split: option.splits)

lemma starts_with_set: "starts_with p t \<Longrightarrow> set p \<subseteq> set t"
  by (induction p t rule: starts_with.induct) auto

lemma contains_set: "contains p t \<Longrightarrow> set p \<subseteq> set t"
proof (induction p t rule: contains.induct)
  case (1 p)
  then show ?case by simp
next
  case (2 p c cs)
  from "2.prems" have "starts_with p (c # cs) \<or> contains p cs" by simp
  then show ?case
  proof
    assume "starts_with p (c # cs)"
    then show ?thesis by (rule starts_with_set)
  next
    assume "contains p cs"
    then have "set p \<subseteq> set cs" by (rule "2.IH")
    then show ?thesis by auto
  qed
qed

lemma plain_upper_never_found:
  assumes "has_upper pat" and "\<not> has_upper text"
  shows "\<not> re_found plain_re pat text"
proof
  assume "re_found plain_re pat text"
  then have "set pat \<subseteq> set text" by (simp add: plain_re_def contains_set)
  with assms show False by (auto simp: has_upper_def list_ex_iff)
qed

section \<open>Role and device type from the ports\<close>

text \<open>
  Claim C2, as stated, fails when the first matching port maps the device type
  to the string \<^verbatim>\<open>Unknown\<close> and port 443 is open: the TLS step takes the
  device type for unresolved and replaces it by the one of a matching
  fingerprint rule. Here port 443 is mapped to the role \<^verbatim>\<open>web\<close> and the device
  type \<^verbatim>\<open>Unknown\<close>, and the classification returned has the device type
  \<^verbatim>\<open>RouterOS\<close>.
\<close>

theorem first_port_counterexample:
  "open_ports https_host = [443]
   \<and> map_of (port_roles web_unknown_engine) (str_int 443)
       = Some (PDict [(''role'', PStr ''web''), (''device_type'', PStr ''Unknown'')])
   \<and> fst (fingerprint_host plain_re mikrotik_net web_unknown_engine https_host [])
       = Inr \<lparr>vendor = PStr ''MikroTik'', role_slug = PStr ''web'', device_type = PStr ''RouterOS''\<rparr>"
  by code_simp

text \<open>
  Claim C2, amended: when the open ports hold a port whose decimal string is a
  key of \<^verbatim>\<open>port_roles\<close>, and the entry of the first such port is a mapping with
  a role and a device type, every classification returned has that role, and has
  that device type whenever it is not the string \<^verbatim>\<open>Unknown\<close> or port 443 is not
  open. The entries of later matching ports play no part. On a well-formed rule
  store a classification is returned.
\<close>

theorem first_port_wins:
  assumes "open_ports h = pre @ p # post"
    and "\<forall>q\<in>set pre. map_of (port_roles self) (str_int q) = None"
    and "map_of (port_roles self) (str_int p) = Some (PDict d)"
    and "map_of d ''role'' = Some r" and "map_of d ''device_type'' = Some t"
  shows "(\<forall>c. fst (fingerprint_host re net self h log) = Inr c \<longrightarrow>
            role_slug c = r
          \<and> (t \<noteq> DEFAULT_DEVICE_TYPE \<longrightarrow> device_type c = t)
          \<and> (443 \<notin> set (open_ports h) \<longrightarrow> device_type c = t))
       \<and> (wf_engine re self \<longrightarrow> (\<exists>c. fst (fingerprint_host re net self h log) = Inr c))"
proof -
  have pl: "port_lookup (port_roles self) (open_ports h) DEFAULT_ROLE_SLUG DEFAULT_DEVICE_TYPE = Inr (r, t)"
    using port_lookup_first [OF assms(1,2,3)] assms(4,5) by (simp add: dict_get_def)
  have "role_slug c = r \<and> (t \<noteq> DEFAULT_DEVICE_TYPE \<longrightarrow> device_type c = t)
          \<and> (443 \<notin> set (open_ports h) \<longrightarrow> device_type c = t)"
    if "fst (fingerprint_host re net self h log) = Inr c" for c
    using fingerprint_host_result [OF that] pl by auto
  with fingerprint_host_total [of re self net h log] show ?thesis by blast
qed

theorem first_port_wins_witness:
  "open_ports multi_port_host = [25] @ 22 # [80]
   \<and> map_of (port_roles two_port_engine) (str_int 25) = None
   \<and> map_of (port_roles two_port_engine) (str_int 22)
       = Some (PDict [(''role'', PStr ''server''), (''device_type'', PStr ''Linux Host'')])
   \<and> map_of (port_roles two_port_engine) (str_int 80) = Some entry_web
   \<and> wf_engine plain_re two_port_engine
   \<and> (\<exists>c. fst (fingerprint_host plain_re silent_net two_port_engine multi_port_host []) = Inr c
          \<and> role_slug c = PStr ''server'' \<and> device_type c = PStr ''Linux Host'')"
proof -
  let ?d = "[(''role'', PStr ''server''), (''device_type'', PStr ''Linux Host'')]"
  have h1: "open_ports multi_port_host = [25] @ 22 # [80]" by code_simp
  have h0: "map_of (port_roles two_port_engine) (str_int 25) = None" by code_simp
  then have h2: "\<forall>q\<in>set [25]. map_of (port_roles two_port_engine) (str_int q) = None" by simp
  have h3: "map_of (port_roles two_port_engine) (str_int 22) = Some (PDict ?d)" by code_simp
  have h4: "map_of ?d ''role'' = Some (PStr ''server'')" by simp
  have h5: "map_of ?d ''device_type'' = Some (PStr ''Linux Host'')" by simp
  have h6: "map_of (port_roles two_port_engine) (str_int 80) = Some entry_web" by code_simp
  have w: "wf_engine plain_re two_port_engine" by code_simp
  have n: "PStr ''Linux Host'' \<noteq> DEFAULT_DEVICE_TYPE" by simp
  from first_port_wins [OF h1 h2 h3 h4 h5, of plain_re silent_net "[]"] w n
  have "\<exists>c. fst (fingerprint_host plain_re silent_net two_port_engine multi_port_host []) = Inr c
          \<and> role_slug c = PStr ''server'' \<and> device_type c = PStr ''Linux Host''"
    by blast
  with h0 h1 h3 h6 w show ?thesis by blast
qed

section \<open>The first matching rule\<close>

text \<open>
  Claim C4, as stated, fails on a rule whose pattern matches but whose vendor is
  the empty string: the guard \<^verbatim>\<open>if pat and vend and dt\<close> passes over it, and the
  pair returned is the one of a later rule, not of the first rule whose pattern
  matches.
\<close>

theorem first_rule_counterexample:
  "str_strip (''mikrotik.local'' @ '' '' @ []) \<noteq> []
   \<and> re_search plain_re (PStr ''mikrotik'') (''mikrotik.local'' @ '' '' @ []) = Inr True
   \<and> regex_fingerprint plain_re
        [PDict [(''regex'', PStr ''mikrotik''), (''vendor'', PStr []), (''device_type'', PStr ''RouterOS'')],
         PDict [(''regex'', PStr ''mikro''), (''vendor'', PStr ''MikroTik''), (''device_type'', PStr ''RB'')]]
        ''mikrotik.local'' []
       = Inr (PStr ''MikroTik'', PStr ''RB'')"
  by code_simp

text \<open>
  Claim C4, amended: for a combined evidence text that is not blank and a list
  of well-formed rules, \<^verbatim>\<open>_regex_fingerprint\<close> returns the vendor and the device
  type of the first rule, in list order, that has a non-empty regex, vendor and
  device type and whose pattern is found in the text; rules lacking one of the
  three are passed over; with no such rule it returns \<^verbatim>\<open>(None, None)\<close>. When
  two such rules match, the first one in the list is applied.
\<close>

theorem first_matching_rule:
  assumes "list_all (wf_rule re) rules" and "str_strip (cn @ '' '' @ page) \<noteq> []"
  shows "regex_fingerprint re rules cn page =
           Inr (case find (rule_hits re (cn @ '' '' @ page)) rules of
                  None \<Rightarrow> (PNone, PNone)
                | Some e \<Rightarrow> (rule_field e ''vendor'', rule_field e ''device_type''))"
  using assms by (simp add: regex_fingerprint_def Let_def match_rules_find)

theorem first_matching_rule_witness:
  "list_all (wf_rule plain_re) [rule_mikrotik, rule_mikro]
   \<and> str_strip (''mikrotik.local'' @ '' '' @ []) \<noteq> []
   \<and> rule_hits plain_re (''mikrotik.local'' @ '' '' @ []) rule_mikrotik
   \<and> rule_hits plain_re (''mikrotik.local'' @ '' '' @ []) rule_mikro
   \<and> regex_fingerprint plain_re [rule_mikrotik, rule_mikro] ''mikrotik.local'' []
       = Inr (PStr ''MikroTik'', PStr ''RouterOS'')"
proof -
  have h1: "list_all (wf_rule plain_re) [rule_mikrotik, rule_mikro]" by code_simp
  have h2: "str_strip (''mikrotik.local'' @ '' '' @ []) \<noteq> []" by code_simp
  have m1: "rule_hits plain_re (''mikrotik.local'' @ '' '' @ []) rule_mikrotik" by code_simp
  have m2: "rule_hits plain_re (''mikrotik.local'' @ '' '' @ []) rule_mikro" by code_simp
  have e: "(case find (rule_hits plain_re (''mikrotik.local'' @ '' '' @ [])) [rule_mikrotik, rule_mikro] of
              None \<Rightarrow> (PNone, PNone)
            | Some e \<Rightarrow> (rule_field e ''vendor'', rule_field e ''device_type''))
           = (PStr ''MikroTik'', PStr ''RouterOS'')"
    by code_simp
  from first_matching_rule [OF h1 h2] e
  have "regex_fingerprint plain_re [rule_mikrotik, rule_mikro] ''mikrotik.local'' []
       = Inr (PStr ''MikroTik'', PStr ''RouterOS'')"
    by simp
  with h1 h2 m1 m2 show ?thesis by blast
qed

section \<open>Letter case in matching\<close>

text \<open>
  Claim C5, as stated, fails: the pattern is handed to \<^verbatim>\<open>re.search\<close> as written
  and with no flag, so its letter case counts. The host sends the CN
  \<^verbatim>\<open>MikroTik.local\<close>, which is fetched as \<^verbatim>\<open>mikrotik.local\<close>; the rule with the
  pattern \<^verbatim>\<open>mikrotik\<close> matches and the rule with the pattern \<^verbatim>\<open>MikroTik\<close>, the
  same letters in another case, does not.
\<close>

theorem case_sensitive_counterexample:
  "fetch_cert_and_page mikrotik_net ''10.0.0.9'' 443 = (''mikrotik.local'', [])
   \<and> str_lower ''MikroTik'' = ''mikrotik''
   \<and> regex_fingerprint plain_re
        [PDict [(''regex'', PStr ''mikrotik''), (''vendor'', PStr ''MikroTik''), (''device_type'', PStr ''RouterOS'')]]
        ''mikrotik.local'' []
       = Inr (PStr ''MikroTik'', PStr ''RouterOS'')
   \<and> regex_fingerprint plain_re
        [PDict [(''regex'', PStr ''MikroTik''), (''vendor'', PStr ''MikroTik''), (''device_type'', PStr ''RouterOS'')]]
        ''mikrotik.local'' []
       = Inr (PNone, PNone)"
  by code_simp

text \<open>
  Claim C5, amended: the result does not depend on the letter case of the
  evidence that the host sends, since the certificate CN and the page body are
  lower-cased before the rules are applied: two networks whose replies for the
  host are the same once lower-cased give the same result, and the text the
  rules are applied to holds no character that lower-casing changes. The letter
  case of the pattern counts: a pattern matched literally that holds a character
  that lower-casing changes is never found in that text.
\<close>

theorem evidence_case_folded:
  assumes "lower_reply (net1 (ip_addr h) 443) = lower_reply (net2 (ip_addr h) 443)"
  shows "fst (fingerprint_host re net1 self h log) = fst (fingerprint_host re net2 self h log)
       \<and> \<not> has_upper (fst (fetch_cert_and_page net1 (ip_addr h) 443) @ '' ''
                         @ snd (fetch_cert_and_page net1 (ip_addr h) 443))
       \<and> (\<forall>pat. has_upper pat \<longrightarrow>
             \<not> re_found plain_re pat
                 (fst (fetch_cert_and_page net1 (ip_addr h) 443) @ '' ''
                    @ snd (fetch_cert_and_page net1 (ip_addr h) 443)))"
proof -
  let ?text = "fst (fetch_cert_and_page net1 (ip_addr h) 443) @ '' ''
                 @ snd (fetch_cert_and_page net1 (ip_addr h) 443)"
  have a: "fst (fingerprint_host re net1 self h log) = fst (fingerprint_host re net2 self h log)"
    using fetch_lower_cong [of net1 "ip_addr h" 443 net2, OF assms] by (rule fingerprint_host_fetch_cong)
  have b: "\<not> has_upper ?text"
    using fetch_no_upper [of net1 "ip_addr h" 443] has_upper_space
    unfolding has_upper_append by blast
  from a b plain_upper_never_found show ?thesis by blast
qed

theorem evidence_case_folded_witness:
  "lower_reply (mikrotik_net (ip_addr https_host) 443) = lower_reply (mikrotik_lower_net (ip_addr https_host) 443)
   \<and> fst (fingerprint_host plain_re mikrotik_net acme_engine https_host [])
       = fst (fingerprint_host plain_re mikrotik_lower_net acme_engine https_host [])
   \<and> has_upper ''MikroTik''
   \<and> \<not> re_found plain_re ''MikroTik''
         (fst (fetch_cert_and_page mikrotik_net (ip_addr https_host) 443) @ '' ''
            @ snd (fetch_cert_and_page mikrotik_net (ip_addr https_host) 443))"
proof -
  have h: "lower_reply (mikrotik_net (ip_addr https_host) 443)
             = lower_reply (mikrotik_lower_net (ip_addr https_host) 443)"
    by code_simp
  have u: "has_upper ''MikroTik''" by code_simp
  from evidence_case_folded [of mikrotik_net https_host mikrotik_lower_net plain_re acme_engine "[]", OF h] u h
  show ?thesis by blast
qed

section \<open>Raising\<close>

text \<open>
  Claim C6, as stated, fails: nothing catches what the rule loop raises. With
  port 443 open and evidence fetched, a rule whose pattern does not compile
  makes the call raise \<^verbatim>\<open>re.error\<close>, and a rule that is a string instead of a
  mapping makes it raise AttributeError.
\<close>

theorem raises_counterexample:
  "fst (fingerprint_host plain_re mikrotik_net bad_regex_engine https_host []) = Inl ReError
   \<and> fst (fingerprint_host plain_re mikrotik_net string_rule_engine https_host []) = Inl AttributeError"
  by code_simp

text \<open>
  Claim C6, amended: on every rule store whose port entries are mappings and
  whose fingerprint rules are mappings in which a non-empty regex, next to a
  non-empty vendor and device type, is a string that compiles, the call returns
  a classification with its three fields and does not raise, whatever the
  observation and the network's answers; rules lacking a regex, a vendor or a
  device type are passed over. With no MAC address, no open port in
  \<^verbatim>\<open>port_roles\<close> and port 443 closed, the classification is the all-default
  one.
\<close>

theorem well_formed_store_returns:
  assumes "wf_engine re self"
  shows "(\<exists>c. fst (fingerprint_host re net self h log) = Inr c)
       \<and> (mac_addr h = None \<and> (\<forall>q\<in>set (open_ports h). map_of (port_roles self) (str_int q) = None)
            \<and> 443 \<notin> set (open_ports h) \<longrightarrow>
          fst (fingerprint_host re net self h log)
            = Inr \<lparr>vendor = DEFAULT_VENDOR, role_slug = DEFAULT_ROLE_SLUG, device_type = DEFAULT_DEVICE_TYPE\<rparr>)"
proof -
  have "fst (fingerprint_host re net self h log)
            = Inr \<lparr>vendor = DEFAULT_VENDOR, role_slug = DEFAULT_ROLE_SLUG, device_type = DEFAULT_DEVICE_TYPE\<rparr>"
    if "mac_addr h = None" and "\<forall>q\<in>set (open_ports h). map_of (port_roles self) (str_int q) = None"
      and "443 \<notin> set (open_ports h)"
    using that port_lookup_none [of "open_ports h" "port_roles self" DEFAULT_ROLE_SLUG DEFAULT_DEVICE_TYPE]
    by (simp add: fingerprint_host_def finish_def Let_def oui_lookup_def)
  with fingerprint_host_total [OF assms, of net h log] show ?thesis by blast
qed

theorem well_formed_store_returns_witness:
  "wf_engine plain_re acme_engine
   \<and> mac_addr bare_host = None
   \<and> open_ports bare_host = [25]
   \<and> map_of (port_roles acme_engine) (str_int 25) = None
   \<and> fst (fingerprint_host plain_re silent_net acme_engine bare_host [])
       = Inr \<lparr>vendor = DEFAULT_VENDOR, role_slug = DEFAULT_ROLE_SLUG, device_type = DEFAULT_DEVICE_TYPE\<rparr>"
proof -
  have w: "wf_engine plain_re acme_engine" by code_simp
  have h1: "mac_addr bare_host = None" by code_simp
  have p: "open_ports bare_host = [25]" by code_simp
  have h0: "map_of (port_roles acme_engine) (str_int 25) = None" by code_simp
  with p have h2: "\<forall>q\<in>set (open_ports bare_host). map_of (port_roles acme_engine) (str_int q) = None"
    by simp
  from p have h3: "443 \<notin> set (open_ports bare_host)" by simp
  from well_formed_store_returns [OF w, of silent_net bare_host "[]"] h1 h2 h3
  have "fst (fingerprint_host plain_re silent_net acme_engine bare_host [])
       = Inr \<lparr>vendor = DEFAULT_VENDOR, role_slug = DEFAULT_ROLE_SLUG, device_type = DEFAULT_DEVICE_TYPE\<rparr>"
    by blast
  with w h1 p h0 show ?thesis by blast
qed

section \<open>Empty fields\<close>

text \<open>
  Claim C7, as stated, fails: \<^verbatim>\<open>.get("role", role_slug)\<close> falls back on the
  default only when the key is missing, so a port entry that maps the role and
  the device type to the empty string gives a classification with both empty.
\<close>

theorem empty_field_counterexample:
  "fst (fingerprint_host plain_re silent_net empty_entry_engine acme_host [])
     = Inr \<lparr>vendor = PStr ''Unknown'', role_slug = PStr [], device_type = PStr []\<rparr>"
  by code_simp

text \<open>
  Claim C7, amended: in every classification returned, the vendor is never the
  empty string, and the role (the device type) is the empty string only when
  the \<^verbatim>\<open>port_roles\<close> entry of an open port maps the role (the device type) to
  the empty string.
\<close>

theorem fields_not_empty:
  assumes "fst (fingerprint_host re net self h log) = Inr c"
  shows "vendor c \<noteq> PStr []
       \<and> (role_slug c = PStr [] \<longrightarrow>
            (\<exists>p\<in>set (open_ports h). \<exists>d. map_of (port_roles self) (str_int p) = Some (PDict d)
                \<and> map_of d ''role'' = Some (PStr [])))
       \<and> (device_type c = PStr [] \<longrightarrow>
            (\<exists>p\<in>set (open_ports h). \<exists>d. map_of (port_roles self) (str_int p) = Some (PDict d)
                \<and> map_of d ''device_type'' = Some (PStr [])))"
proof -
  from fingerprint_host_result [OF assms] obtain role dt where
    pl: "port_lookup (port_roles self) (open_ports h) DEFAULT_ROLE_SLUG DEFAULT_DEVICE_TYPE = Inr (role, dt)"
    and r: "role_slug c = role"
    and v: "vendor c = oui_lookup (oui_dict self) (mac_addr h) \<or> truthy (vendor c)"
    and d: "device_type c = dt \<or> truthy (device_type c)"
    by blast
  from v oui_lookup_truthy [of "oui_dict self" "mac_addr h"] have "truthy (vendor c)" by auto
  then have v': "vendor c \<noteq> PStr []" by auto
  from d have d': "dt = PStr []" if "device_type c = PStr []" using that by auto
  from port_lookup_origin [OF pl] r d' v' show ?thesis by fastforce
qed

theorem fields_not_empty_witness:
  "fst (fingerprint_host plain_re mikrotik_net empty_entry_engine acme_host [])
     = Inr \<lparr>vendor = PStr ''Unknown'', role_slug = PStr [], device_type = PStr []\<rparr>
   \<and> (\<exists>p d. p \<in> set (open_ports acme_host) \<and> map_of (port_roles empty_entry_engine) (str_int p) = Some (PDict d)
          \<and> map_of d ''role'' = Some (PStr []))
   \<and> (\<exists>p d. p \<in> set (open_ports acme_host) \<and> map_of (port_roles empty_entry_engine) (str_int p) = Some (PDict d)
          \<and> map_of d ''device_type'' = Some (PStr []))"
proof -
  have h: "fst (fingerprint_host plain_re mikrotik_net empty_entry_engine acme_host [])
     = Inr \<lparr>vendor = PStr ''Unknown'', role_slug = PStr [], device_type = PStr []\<rparr>"
    by code_simp
  from fields_not_empty [OF h] h show ?thesis by (simp add: Bex_def)
qed

section \<open>Port entries with a missing key\<close>



end
